theory Spec2Isabelle
  imports Main
begin

section \<open>Values of a parsed YAML document\<close>

text \<open>
  \<open>yaml.safe_load\<close> returns plain Python objects.  The checker never tests their types, so
  the configuration is modelled as the value tree it is: a mapping is the list of its items
  in insertion order (keys are distinct, as in a Python dict), a string is the list of its
  characters.  A float is kept as its literal; no operation of the program looks inside one.
\<close>

datatype yaml =
    YNull
  | YBool bool
  | YInt int
  | YFloat string
  | YStr string
  | YList "yaml list"
  | YDict "(yaml \<times> yaml) list"

text \<open>
  The exceptions that occur.  All of them are subclasses of Python's \<open>Exception\<close>:
  \<open>KeyError\<close> and \<open>TypeError\<close> come from subscripting and iterating configuration
  values, the others are what a client library raises when a connection attempt fails.
\<close>

datatype exn =
    KeyError string
  | TypeError
  | ConnectionRefused
  | HostUnreachable
  | HandshakeFailure
  | AuthenticationRejected
  | ProtocolError
  | Timeout
  | OtherError string

text \<open>\<open>s in t\<close> for two strings: \<open>s\<close> occurs in \<open>t\<close> as a contiguous piece.\<close>

fun is_prefix :: "string \<Rightarrow> string \<Rightarrow> bool" where
  "is_prefix [] t = True"
| "is_prefix (c # s) [] = False"
| "is_prefix (c # s) (d # t) = (c = d \<and> is_prefix s t)"

fun substring :: "string \<Rightarrow> string \<Rightarrow> bool" where
  "substring s [] = (s = [])"
| "substring s (d # t) = (is_prefix s (d # t) \<or> substring s t)"

text \<open>\<open>key in obj\<close> for a string key.\<close>

fun py_contains :: "yaml \<Rightarrow> string \<Rightarrow> exn + bool" where
  "py_contains (YDict kv) k = Inr (map_of kv (YStr k) \<noteq> None)"
| "py_contains (YList xs) k = Inr (YStr k \<in> set xs)"
| "py_contains (YStr t) k = Inr (substring k t)"
| "py_contains YNull k = Inl TypeError"
| "py_contains (YBool b) k = Inl TypeError"
| "py_contains (YInt i) k = Inl TypeError"
| "py_contains (YFloat f) k = Inl TypeError"

text \<open>\<open>obj[key]\<close> for a string key: only a mapping can be subscripted by a string.\<close>

fun subscript :: "yaml \<Rightarrow> string \<Rightarrow> exn + yaml" where
  "subscript (YDict kv) k =
     (case map_of kv (YStr k) of None \<Rightarrow> Inl (KeyError k) | Some v \<Rightarrow> Inr v)"
| "subscript (YList xs) k = Inl TypeError"
| "subscript (YStr t) k = Inl TypeError"
| "subscript YNull k = Inl TypeError"
| "subscript (YBool b) k = Inl TypeError"
| "subscript (YInt i) k = Inl TypeError"
| "subscript (YFloat f) k = Inl TypeError"

text \<open>
  \<open>for x in obj\<close>: the elements of a list, the keys of a mapping, the characters of a
  string; anything else is not iterable.
\<close>

fun py_iter :: "yaml \<Rightarrow> exn + yaml list" where
  "py_iter (YList xs) = Inr xs"
| "py_iter (YDict kv) = Inr (map fst kv)"
| "py_iter (YStr t) = Inr (map (\<lambda>c. YStr [c]) t)"
| "py_iter YNull = Inl TypeError"
| "py_iter (YBool b) = Inl TypeError"
| "py_iter (YInt i) = Inl TypeError"
| "py_iter (YFloat f) = Inl TypeError"

text \<open>\<open>str.upper\<close> on ASCII letters; the program applies it to the five service names only.\<close>

definition upper_char :: "char \<Rightarrow> char" where
  "upper_char c =
     (let n = (of_char c :: nat) in if 97 \<le> n \<and> n \<le> 122 then char_of (n - 32) else c)"

definition upper :: "string \<Rightarrow> string" where
  "upper s = map upper_char s"

section \<open>The client libraries\<close>

text \<open>
  A library call acts on the outside world (the network and the servers behind it) and either
  returns or raises: a function from the world to a result and the world afterwards.  The
  libraries themselves are not part of the program; they are a parameter.  A connection
  object is an opaque handle.  \<open>format_str\<close> is Python's formatting of a value inside an
  f-string, which cannot fail on the values a YAML document holds.
\<close>

type_synonym kwargs = "(string \<times> yaml) list"
type_synonym handle = nat
type_synonym ('w, 'a) call = "'w \<Rightarrow> (exn + 'a) \<times> 'w"

record 'w clients =
  psycopg2_connect :: "kwargs \<Rightarrow> ('w, handle) call"
  psycopg2_close :: "handle \<Rightarrow> ('w, unit) call"
  mysql_connect :: "kwargs \<Rightarrow> ('w, handle) call"
  mysql_close :: "handle \<Rightarrow> ('w, unit) call"
  pymongo_MongoClient :: "string \<Rightarrow> ('w, handle) call"
  pymongo_server_info :: "handle \<Rightarrow> ('w, unit) call"
  pymongo_close :: "handle \<Rightarrow> ('w, unit) call"
  pymssql_connect :: "kwargs \<Rightarrow> ('w, handle) call"
  pymssql_close :: "handle \<Rightarrow> ('w, unit) call"
  oracledb_connect :: "kwargs \<Rightarrow> ('w, handle) call"
  oracledb_close :: "handle \<Rightarrow> ('w, unit) call"
  redis_Redis :: "kwargs \<Rightarrow> ('w, handle) call"
  redis_ping :: "handle \<Rightarrow> ('w, unit) call"
  format_str :: "yaml \<Rightarrow> string"

text \<open>Sequencing of calls: the first exception ends the sequence.\<close>

definition and_then :: "('w, 'a) call \<Rightarrow> ('a \<Rightarrow> ('w, 'b) call) \<Rightarrow> ('w, 'b) call" where
  "and_then m f w = (case m w of (Inl e, w') \<Rightarrow> (Inl e, w') | (Inr x, w') \<Rightarrow> f x w')"

definition return :: "'a \<Rightarrow> ('w, 'a) call" where
  "return x w = (Inr x, w)"

text \<open>
  \<open>try: body  except Exception: return False\<close>.  Every value of \<open>exn\<close> is an
  \<open>Exception\<close>, so the handler takes each of them.
\<close>

definition try_except_False :: "('w, bool) call \<Rightarrow> ('w, bool) call" where
  "try_except_False body w = (case body w of (Inl e, w') \<Rightarrow> (Inr False, w') | (Inr b, w') \<Rightarrow> (Inr b, w'))"

section \<open>The probes\<close>

definition check_postgres :: "'w clients \<Rightarrow> yaml \<Rightarrow> yaml \<Rightarrow> yaml \<Rightarrow> yaml \<Rightarrow> ('w, bool) call" where
  "check_postgres lib host port username password =
     try_except_False
       (and_then (psycopg2_connect lib
            [(''host'', host), (''port'', port), (''user'', username), (''password'', password),
             (''database'', YStr ''postgres''), (''connect_timeout'', YInt 3)])
          (\<lambda>conn. and_then (psycopg2_close lib conn) (\<lambda>_. return True)))"

definition check_mysql :: "'w clients \<Rightarrow> yaml \<Rightarrow> yaml \<Rightarrow> yaml \<Rightarrow> yaml \<Rightarrow> ('w, bool) call" where
  "check_mysql lib host port username password =
     try_except_False
       (and_then (mysql_connect lib
            [(''host'', host), (''port'', port), (''user'', username), (''password'', password),
             (''connection_timeout'', YInt 3)])
          (\<lambda>conn. and_then (mysql_close lib conn) (\<lambda>_. return True)))"

definition mongodb_uri :: "'w clients \<Rightarrow> yaml \<Rightarrow> yaml \<Rightarrow> yaml \<Rightarrow> yaml \<Rightarrow> string" where
  "mongodb_uri lib host port username password =
     ''mongodb://'' @ format_str lib username @ '':'' @ format_str lib password @ ''@''
       @ format_str lib host @ '':'' @ format_str lib port @ ''/?serverSelectionTimeoutMS=3000''"

definition check_mongodb :: "'w clients \<Rightarrow> yaml \<Rightarrow> yaml \<Rightarrow> yaml \<Rightarrow> yaml \<Rightarrow> ('w, bool) call" where
  "check_mongodb lib host port username password =
     try_except_False
       (and_then (pymongo_MongoClient lib (mongodb_uri lib host port username password))
          (\<lambda>client. and_then (pymongo_server_info lib client)
             (\<lambda>_. and_then (pymongo_close lib client) (\<lambda>_. return True))))"

definition check_mssql :: "'w clients \<Rightarrow> yaml \<Rightarrow> yaml \<Rightarrow> yaml \<Rightarrow> yaml \<Rightarrow> ('w, bool) call" where
  "check_mssql lib host port username password =
     try_except_False
       (and_then (pymssql_connect lib
            [(''server'', host), (''port'', port), (''user'', username), (''password'', password),
             (''login_timeout'', YInt 3)])
          (\<lambda>conn. and_then (pymssql_close lib conn) (\<lambda>_. return True)))"

definition oracle_dsn :: "'w clients \<Rightarrow> yaml \<Rightarrow> yaml \<Rightarrow> string" where
  "oracle_dsn lib host port = format_str lib host @ '':'' @ format_str lib port @ ''/ORCL''"

definition check_oracle :: "'w clients \<Rightarrow> yaml \<Rightarrow> yaml \<Rightarrow> yaml \<Rightarrow> yaml \<Rightarrow> ('w, bool) call" where
  "check_oracle lib host port username password =
     try_except_False
       (and_then (oracledb_connect lib
            [(''user'', username), (''password'', password),
             (''dsn'', YStr (oracle_dsn lib host port)), (''timeout'', YInt 3)])
          (\<lambda>conn. and_then (oracledb_close lib conn) (\<lambda>_. return True)))"

text \<open>
  The Redis probe has no username parameter.  Constructing the client opens nothing; the
  \<open>ping\<close> is the only command sent, and no close follows it.
\<close>

definition check_redis :: "'w clients \<Rightarrow> yaml \<Rightarrow> yaml \<Rightarrow> yaml \<Rightarrow> ('w, bool) call" where
  "check_redis lib host port password =
     try_except_False
       (and_then (redis_Redis lib
            [(''host'', host), (''port'', port), (''password'', password),
             (''socket_timeout'', YInt 3)])
          (\<lambda>r. and_then (redis_ping lib r) (\<lambda>_. return True)))"

section \<open>The checker\<close>

text \<open>
  A result is the Python dict appended to \<open>self.results\<close>: its items in insertion order.
\<close>

type_synonym finding = "(string \<times> yaml) list"

text \<open>
  One invocation of a probe function: the service name under which it was dispatched and the
  arguments it was given.  The log of invocations is not a variable of the program; it records
  which probe calls a run makes, in order, and what each returned.
\<close>

datatype probe_call =
    DatabaseProbe string yaml yaml yaml yaml
  | RedisProbe yaml yaml yaml

text \<open>
  What a run acts on: \<open>self.results\<close>, the outside world, and the log.  \<open>self.config\<close> is
  assigned once, in \<open>__init__\<close>, and only read afterwards, so it is passed as an argument.
\<close>

record 'w state =
  results :: "finding list"
  world :: 'w
  probe_log :: "(probe_call \<times> (exn + bool)) list"

text \<open>Evaluating an expression that may raise; invoking a probe; \<open>self.results.append\<close>.\<close>

definition lift :: "exn + 'a \<Rightarrow> ('s, 'a) call" where
  "lift r s = (r, s)"

definition invoke :: "probe_call \<Rightarrow> ('w, bool) call \<Rightarrow> ('w state, bool) call" where
  "invoke c probe st =
     (case probe (world st) of
        (r, w') \<Rightarrow> (r, st\<lparr>world := w', probe_log := probe_log st @ [(c, r)]\<rparr>))"

definition append_result :: "finding \<Rightarrow> ('w state, unit) call" where
  "append_result f st = (Inr (), st\<lparr>results := results st @ [f]\<rparr>)"

fun for_each :: "('a \<Rightarrow> ('s, unit) call) \<Rightarrow> 'a list \<Rightarrow> ('s, unit) call" where
  "for_each body [] s = (Inr (), s)"
| "for_each body (x # xs) s =
     (case body x s of (Inl e, s') \<Rightarrow> (Inl e, s') | (Inr u, s') \<Rightarrow> for_each body xs s')"

definition check_methods ::
  "'w clients \<Rightarrow> (string \<times> (yaml \<Rightarrow> yaml \<Rightarrow> yaml \<Rightarrow> yaml \<Rightarrow> ('w, bool) call)) list" where
  "check_methods lib =
     [(''postgresql'', check_postgres lib),
      (''mysql'', check_mysql lib),
      (''mongodb'', check_mongodb lib),
      (''mssql'', check_mssql lib),
      (''oracle'', check_oracle lib)]"

definition database_finding :: "string \<Rightarrow> yaml \<Rightarrow> yaml \<Rightarrow> yaml \<Rightarrow> yaml \<Rightarrow> finding" where
  "database_finding db_type host port username password =
     [(''service'', YStr (upper db_type)), (''host'', host), (''port'', port),
      (''username'', username), (''password'', password)]"

text \<open>
  \<open>check_database\<close>.  The four subscripts are the arguments of the call, evaluated left to
  right before the probe is entered; the dict literal reads the same keys of the same
  unchanged dicts again and gets the same values.  Logging is left out: it changes neither
  \<open>self.results\<close> nor the control flow.
\<close>

definition check_database :: "'w clients \<Rightarrow> string \<Rightarrow> yaml \<Rightarrow> yaml \<Rightarrow> ('w state, unit) call" where
  "check_database lib db_type config cred =
     (case map_of (check_methods lib) db_type of
        None \<Rightarrow> return ()
      | Some check_method \<Rightarrow>
          and_then (lift (subscript config ''host'')) (\<lambda>host.
          and_then (lift (subscript config ''port'')) (\<lambda>port.
          and_then (lift (subscript cred ''username'')) (\<lambda>username.
          and_then (lift (subscript cred ''password'')) (\<lambda>password.
          and_then (invoke (DatabaseProbe db_type host port username password)
                      (check_method host port username password)) (\<lambda>success.
            if success
            then append_result (database_finding db_type host port username password)
            else return ()))))))"

definition database_services :: "string list" where
  "database_services = [''postgresql'', ''mysql'', ''mongodb'', ''mssql'', ''oracle'']"

definition redis_finding :: "yaml \<Rightarrow> yaml \<Rightarrow> yaml \<Rightarrow> finding" where
  "redis_finding host port password =
     [(''service'', YStr ''Redis''), (''host'', host), (''port'', port), (''password'', password)]"

text \<open>The body of the loop over \<open>database_services\<close>.\<close>

definition check_service :: "'w clients \<Rightarrow> yaml \<Rightarrow> string \<Rightarrow> ('w state, unit) call" where
  "check_service lib config db_type =
     and_then (lift (py_contains config db_type)) (\<lambda>present.
       if present
       then and_then (lift (subscript config db_type)) (\<lambda>db_config.
            and_then (lift (subscript db_config ''default_credentials'')) (\<lambda>creds.
            and_then (lift (py_iter creds)) (\<lambda>creds.
              for_each (check_database lib db_type db_config) creds)))
       else return ())"

text \<open>The body of the loop over the Redis passwords.\<close>

definition check_redis_password :: "'w clients \<Rightarrow> yaml \<Rightarrow> yaml \<Rightarrow> ('w state, unit) call" where
  "check_redis_password lib redis_config password =
     and_then (lift (subscript redis_config ''host'')) (\<lambda>host.
     and_then (lift (subscript redis_config ''port'')) (\<lambda>port.
     and_then (invoke (RedisProbe host port password) (check_redis lib host port password))
       (\<lambda>success.
         if success then append_result (redis_finding host port password) else return ())))"

definition check_redis_service :: "'w clients \<Rightarrow> yaml \<Rightarrow> ('w state, unit) call" where
  "check_redis_service lib config =
     and_then (lift (py_contains config ''redis'')) (\<lambda>present.
       if present
       then and_then (lift (subscript config ''redis'')) (\<lambda>redis_config.
            and_then (lift (subscript redis_config ''default_passwords'')) (\<lambda>passwords.
            and_then (lift (py_iter passwords)) (\<lambda>passwords.
              for_each (check_redis_password lib redis_config) passwords)))
       else return ())"

definition run_checks :: "'w clients \<Rightarrow> yaml \<Rightarrow> ('w state, finding list) call" where
  "run_checks lib config =
     and_then (for_each (check_service lib config) database_services) (\<lambda>_.
     and_then (check_redis_service lib config) (\<lambda>_.
       (\<lambda>st. (Inr (results st), st))))"

section \<open>Construction and the command line\<close>


text \<open>\<open>__init__\<close>: the loaded configuration and an empty result list.\<close>

definition init :: "'w \<Rightarrow> 'w state" where
  "init w = \<lparr>results = [], world = w, probe_log = []\<rparr>"







section \<open>What a run is measured against\<close>

text \<open>
  The definitions of this section are not code of the program.  They name what the claims
  speak about: the Finding a probe call stands for, the probe function a logged call went to,
  the shape of a configuration the run accepts, and the sweep a configuration asks for.
\<close>

fun finding_of :: "probe_call \<Rightarrow> finding" where
  "finding_of (DatabaseProbe t h p u pw) = database_finding t h p u pw"
| "finding_of (RedisProbe h p pw) = redis_finding h p pw"

text \<open>The service a call belongs to: a database service by its name, or the Redis sweep.\<close>

datatype service = Database string | Redis

fun service_of :: "probe_call \<Rightarrow> service" where
  "service_of (DatabaseProbe t h p u pw) = Database t"
| "service_of (RedisProbe h p pw) = Redis"

definition findings_of :: "(probe_call \<times> (exn + bool)) list \<Rightarrow> finding list" where
  "findings_of entries = map (\<lambda>(c, r). finding_of c) (filter (\<lambda>(c, r). r = Inr True) entries)"

text \<open>The probe function behind a call; \<open>check_methods[db_type]\<close> for a database.\<close>

fun run_probe :: "'w clients \<Rightarrow> probe_call \<Rightarrow> ('w, bool) call" where
  "run_probe lib (DatabaseProbe t h p u pw) =
     (case map_of (check_methods lib) t of
        None \<Rightarrow> lift (Inl (KeyError t))
      | Some check_method \<Rightarrow> check_method h p u pw)"
| "run_probe lib (RedisProbe h p pw) = check_redis lib h p pw"

text \<open>
  \<open>extends lib S st st'\<close>: from \<open>st\<close> to \<open>st'\<close> some probes of the services in \<open>S\<close> were
  invoked, each logged with what its probe function returned, and exactly the ones that
  returned \<open>True\<close> left a result, in the order of the calls.
\<close>

definition extends :: "'w clients \<Rightarrow> service set \<Rightarrow> 'w state \<Rightarrow> 'w state \<Rightarrow> bool" where
  "extends lib S st st' \<longleftrightarrow>
     (\<exists>new. probe_log st' = probe_log st @ new \<and>
            results st' = results st @ findings_of new \<and>
            (\<forall>(c, r) \<in> set new. service_of c \<in> S \<and> (\<exists>w. r = fst (run_probe lib c w))))"

definition keeps :: "'w clients \<Rightarrow> service set \<Rightarrow> ('w state, 'a) call \<Rightarrow> bool" where
  "keeps lib S m \<longleftrightarrow> (\<forall>st. extends lib S st (snd (m st)))"


subsection \<open>Well-formed configurations and the sweep they ask for\<close>














subsection \<open>Test doubles\<close>

text \<open>
  A client library for worked examples.  Its world is the number of connection attempts made
  so far.  PostgreSQL, MySQL and Redis accept the credentials \<open>ok\<close> accepts (Redis has no
  user), MongoDB times out, SQL Server refuses the connection and Oracle is unreachable.
\<close>

definition stub_clients :: "(yaml \<Rightarrow> yaml \<Rightarrow> bool) \<Rightarrow> nat clients" where
  "stub_clients ok =
     \<lparr>psycopg2_connect = (\<lambda>kw n. (if ok (the (map_of kw ''user'')) (the (map_of kw ''password''))
                                  then Inr n else Inl AuthenticationRejected, Suc n)),
      psycopg2_close = (\<lambda>h n. (Inr (), n)),
      mysql_connect = (\<lambda>kw n. (if ok (the (map_of kw ''user'')) (the (map_of kw ''password''))
                               then Inr n else Inl AuthenticationRejected, Suc n)),
      mysql_close = (\<lambda>h n. (Inr (), n)),
      pymongo_MongoClient = (\<lambda>uri n. (Inr n, n)),
      pymongo_server_info = (\<lambda>h n. (Inl Timeout, Suc n)),
      pymongo_close = (\<lambda>h n. (Inr (), n)),
      pymssql_connect = (\<lambda>kw n. (Inl ConnectionRefused, Suc n)),
      pymssql_close = (\<lambda>h n. (Inr (), n)),
      oracledb_connect = (\<lambda>kw n. (Inl HostUnreachable, Suc n)),
      oracledb_close = (\<lambda>h n. (Inr (), n)),
      redis_Redis = (\<lambda>kw n. (Inr (if ok YNull (the (map_of kw ''password'')) then 1 else 0), n)),
      redis_ping = (\<lambda>h n. (if h = 1 then Inr () else Inl AuthenticationRejected, Suc n)),
      format_str = (\<lambda>v. case v of YStr s \<Rightarrow> s | _ \<Rightarrow> ''?'')\<rparr>"

definition example_ok :: "yaml \<Rightarrow> yaml \<Rightarrow> bool" where
  "example_ok username password =
     (username = YStr ''postgres'' \<and> password = YStr ''postgres'' \<or>
      username = YNull \<and> password = YStr ''secret'')"


definition credential :: "string \<Rightarrow> string \<Rightarrow> yaml" where
  "credential u p = YDict [(YStr ''username'', YStr u), (YStr ''password'', YStr p)]"

text \<open>The end-to-end scenario: one PostgreSQL instance at \<open>db.local:5432\<close>, two candidates.\<close>

definition example_config :: yaml where
  "example_config =
     YDict [(YStr ''postgresql'',
             YDict [(YStr ''host'', YStr ''db.local''), (YStr ''port'', YInt 5432),
                    (YStr ''default_credentials'',
                     YList [credential ''admin'' ''admin'', credential ''postgres'' ''postgres''])])]"


text \<open>A Redis instance with two candidate passwords.\<close>

definition redis_config :: yaml where
  "redis_config =
     YDict [(YStr ''redis'',
             YDict [(YStr ''host'', YStr ''cache.local''), (YStr ''port'', YInt 6379),
                    (YStr ''default_passwords'', YList [YStr ''redis'', YStr ''secret''])])]"

text \<open>The Redis instance and the PostgreSQL instance in one file.\<close>

definition mixed_config :: yaml where
  "mixed_config =
     YDict [(YStr ''redis'',
             YDict [(YStr ''host'', YStr ''cache.local''), (YStr ''port'', YInt 6379),
                    (YStr ''default_passwords'', YList [YStr ''redis'', YStr ''secret''])]),
            (YStr ''postgresql'',
             YDict [(YStr ''host'', YStr ''db.local''), (YStr ''port'', YInt 5432),
                    (YStr ''default_credentials'',
                     YList [credential ''admin'' ''admin'', credential ''postgres'' ''postgres''])])]"

text \<open>The end-to-end scenario with a second entry under the misspelt name \<open>postgres\<close>.\<close>

definition typo_config :: yaml where
  "typo_config =
     YDict [(YStr ''postgres'',
             YDict [(YStr ''host'', YStr ''typo.local''), (YStr ''port'', YInt 5432),
                    (YStr ''default_credentials'', YList [credential ''postgres'' ''postgres''])]),
            (YStr ''postgresql'',
             YDict [(YStr ''host'', YStr ''db.local''), (YStr ''port'', YInt 5432),
                    (YStr ''default_credentials'',
                     YList [credential ''admin'' ''admin'', credential ''postgres'' ''postgres''])])]"

subsection \<open>The two shapes of a result\<close>

definition keys :: "finding \<Rightarrow> string list" where
  "keys f = map fst f"

definition database_shaped :: "finding \<Rightarrow> bool" where
  "database_shaped f \<longleftrightarrow>
     keys f = [''service'', ''host'', ''port'', ''username'', ''password''] \<and>
     map_of f ''service'' \<in> Some ` YStr ` set (map upper database_services)"

definition redis_shaped :: "finding \<Rightarrow> bool" where
  "redis_shaped f \<longleftrightarrow>
     keys f = [''service'', ''host'', ''port'', ''password''] \<and>
     map_of f ''service'' = Some (YStr ''Redis'')"

subsection \<open>Malformed instances\<close>







subsection \<open>Two runs\<close>

text \<open>
  The probe outcomes are fixed when what a probe function returns depends on its arguments
  only, not on the world it is called in.
\<close>

definition deterministic :: "'w clients \<Rightarrow> bool" where
  "deterministic lib \<longleftrightarrow> (\<forall>c w w'. fst (run_probe lib c w) = fst (run_probe lib c w'))"

text \<open>
  Two checkers side by side: the second holds the results of the first after some \<open>earlier\<close>
  ones.  A step takes the same course on both when it raises or returns the same and leaves
  them side by side again.
\<close>

definition twin :: "finding list \<Rightarrow> 'w state \<Rightarrow> 'w state \<Rightarrow> bool" where
  "twin earlier st st2 \<longleftrightarrow> results st2 = earlier @ results st"

definition same_course :: "finding list \<Rightarrow> ('w state, 'a) call \<Rightarrow> bool" where
  "same_course earlier m \<longleftrightarrow>
     (\<forall>st st2. twin earlier st st2 \<longrightarrow>
        fst (m st2) = fst (m st) \<and> twin earlier (snd (m st)) (snd (m st2)))"

section \<open>Properties\<close>

subsection \<open>Sequencing\<close>

lemma and_then_lift_Inr [simp]: "and_then (lift (Inr x)) f = f x"
  by (rule ext) (simp add: and_then_def lift_def)

lemma and_then_lift_Inl [simp]: "and_then (lift (Inl e)) f s = (Inl e, s)"
  by (simp add: and_then_def lift_def)

lemma for_each_Cons_and_then:
  "for_each body (x # xs) = and_then (body x) (\<lambda>_. for_each body xs)"
  by (rule ext) (simp add: and_then_def split: prod.splits sum.splits)

subsection \<open>A probe returns a boolean\<close>





subsection \<open>Every step keeps results and probe log in line\<close>

lemma findings_of_append [simp]: "findings_of (xs @ ys) = findings_of xs @ findings_of ys"
  by (simp add: findings_of_def)

lemma findings_of_Nil [simp]: "findings_of [] = []"
  by (simp add: findings_of_def)


lemma extends_refl: "extends lib S st st"
  by (simp add: extends_def)

lemma extends_trans:
  "extends lib S st st' \<Longrightarrow> extends lib S st' st'' \<Longrightarrow> extends lib S st st''"
  unfolding extends_def
  apply (elim exE conjE)
  subgoal for new new'
    by (rule exI [of _ "new @ new'"]) auto
  done

lemma extends_mono: "extends lib S st st' \<Longrightarrow> S \<subseteq> T \<Longrightarrow> extends lib T st st'"
  unfolding extends_def by fast

lemma keeps_mono: "keeps lib S m \<Longrightarrow> S \<subseteq> T \<Longrightarrow> keeps lib T m"
  unfolding keeps_def by (blast intro: extends_mono)

lemma keepsD: "keeps lib S m \<Longrightarrow> m st = (r, st') \<Longrightarrow> extends lib S st st'"
  by (auto simp: keeps_def dest: spec [of _ st])

lemma keeps_lift: "keeps lib S (lift r)"
  by (simp add: keeps_def lift_def extends_refl)

lemma keeps_return: "keeps lib S (return x)"
  by (simp add: keeps_def return_def extends_refl)

lemma keeps_and_then:
  assumes "keeps lib S m" and "\<And>x. keeps lib S (f x)"
  shows "keeps lib S (and_then m f)"
  unfolding keeps_def
proof
  fix st
  obtain r st' where m: "m st = (r, st')" by (cases "m st")
  from assms(1) m have e1: "extends lib S st st'" by (rule keepsD)
  show "extends lib S st (snd (and_then m f st))"
  proof (cases r)
    case (Inl e)
    with m e1 show ?thesis by (simp add: and_then_def)
  next
    case (Inr x)
    from assms(2) [of x] have "extends lib S st' (snd (f x st'))" by (simp add: keeps_def)
    with e1 have "extends lib S st (snd (f x st'))" by (rule extends_trans)
    with m Inr show ?thesis by (simp add: and_then_def)
  qed
qed

lemma keeps_for_each:
  assumes "\<And>x. keeps lib S (body x)"
  shows "keeps lib S (for_each body xs)"
proof (induction xs)
  case Nil
  show ?case by (simp add: keeps_def extends_refl)
next
  case (Cons x xs)
  with assms show ?case by (simp add: for_each_Cons_and_then keeps_and_then)
qed

lemma keeps_probe:
  assumes "probe = run_probe lib c" and "f = finding_of c" and "service_of c \<in> S"
  shows "keeps lib S (and_then (invoke c probe)
           (\<lambda>success. if success then append_result f else return ()))"
  unfolding keeps_def
proof
  fix st :: "'a state"
  obtain r w' where p: "run_probe lib c (world st) = (r, w')"
    by (cases "run_probe lib c (world st)")
  then have r: "\<exists>w. r = fst (run_probe lib c w)" by (intro exI [of _ "world st"]) simp
  let ?st' = "snd (and_then (invoke c probe)
           (\<lambda>success. if success then append_result f else return ()) st)"
  have "probe_log ?st' = probe_log st @ [(c, r)]"
    using assms p by (cases r) (simp_all add: and_then_def invoke_def append_result_def return_def)
  moreover have "results ?st' = results st @ findings_of [(c, r)]"
    using assms p
    by (cases r) (simp_all add: and_then_def invoke_def append_result_def return_def findings_of_def)
  ultimately show "extends lib S st ?st'"
    using r assms(3) unfolding extends_def by (intro exI [of _ "[(c, r)]"]) simp
qed

lemma keeps_database_probe:
  assumes "map_of (check_methods lib) t = Some check_method"
  shows "keeps lib {Database t} (and_then (invoke (DatabaseProbe t h p u pw) (check_method h p u pw))
           (\<lambda>success. if success then append_result (database_finding t h p u pw) else return ()))"
  using assms by (intro keeps_probe) simp_all

lemma keeps_redis_probe:
  "keeps lib {Redis} (and_then (invoke (RedisProbe h p pw) (check_redis lib h p pw))
           (\<lambda>success. if success then append_result (redis_finding h p pw) else return ()))"
  by (intro keeps_probe) simp_all

lemma keeps_check_database:
  "keeps lib {Database db_type} (check_database lib db_type config cred)"
proof (cases "map_of (check_methods lib) db_type")
  case None
  then show ?thesis by (simp add: check_database_def keeps_return)
next
  case (Some check_method)
  then show ?thesis
    unfolding check_database_def
    by (simp add: keeps_and_then keeps_lift keeps_database_probe)
qed

lemma keeps_check_service: "keeps lib {Database t} (check_service lib config t)"
  unfolding check_service_def
  by (auto intro!: keeps_and_then keeps_lift keeps_return keeps_for_each keeps_check_database)

lemma keeps_check_services:
  "keeps lib (Database ` set ts) (for_each (check_service lib config) ts)"
proof (induction ts)
  case Nil
  show ?case by (simp add: keeps_def extends_refl)
next
  case (Cons t ts)
  have "keeps lib (Database ` set (t # ts)) (check_service lib config t)"
    by (rule keeps_mono [OF keeps_check_service]) simp
  moreover have "keeps lib (Database ` set (t # ts)) (for_each (check_service lib config) ts)"
    by (rule keeps_mono [OF Cons.IH]) auto
  ultimately show ?case by (simp add: for_each_Cons_and_then keeps_and_then)
qed

lemma keeps_check_redis_password: "keeps lib {Redis} (check_redis_password lib rc pw)"
  unfolding check_redis_password_def
  by (simp add: keeps_and_then keeps_lift keeps_redis_probe)

lemma keeps_check_redis_service: "keeps lib {Redis} (check_redis_service lib config)"
  unfolding check_redis_service_def
  by (auto intro!: keeps_and_then keeps_lift keeps_return keeps_for_each keeps_check_redis_password)

lemma keeps_run_checks:
  "keeps lib (insert Redis (Database ` set database_services)) (run_checks lib config)"
proof -
  let ?S = "insert Redis (Database ` set database_services)"
  have "keeps lib ?S (\<lambda>st. (Inr (results st), st))"
    by (simp add: keeps_def extends_refl)
  moreover have "keeps lib ?S (for_each (check_service lib config) database_services)"
    by (rule keeps_mono [OF keeps_check_services]) auto
  moreover have "keeps lib ?S (check_redis_service lib config)"
    by (rule keeps_mono [OF keeps_check_redis_service]) simp
  ultimately show ?thesis
    unfolding run_checks_def by (intro keeps_and_then)
qed

lemma run_checks_returns_results:
  "run_checks lib config st = (Inr fs, st') \<Longrightarrow> fs = results st'"
  by (auto simp: run_checks_def and_then_def split: prod.splits sum.splits)

subsection \<open>A well-formed configuration is swept in full\<close>














subsection \<open>A run that returns has swept in full\<close>












lemma upper_database_services:
  "map upper database_services = [''POSTGRESQL'', ''MYSQL'', ''MONGODB'', ''MSSQL'', ''ORACLE'']"
  by code_simp



section \<open>The claims\<close>

text \<open>
  C1.  Whatever the configuration, the client libraries and the state the run starts in: the
  results a run of \<open>run_checks\<close> appends are, call for call, the Findings of the probe
  invocations whose probe function returned \<open>True\<close>.  Every invocation is logged with what
  the probe function of its service returned for its host, port and credential; an
  invocation that returned \<open>True\<close> leaves its Finding, any other leaves nothing; and what
  \<open>run_checks\<close> returns, when it returns, is this result list.
\<close>

theorem finding_iff_probe_true:
  "\<exists>new. probe_log (snd (run_checks lib config st)) = probe_log st @ new \<and>
     results (snd (run_checks lib config st)) =
       results st @ map (\<lambda>(c, r). finding_of c) (filter (\<lambda>(c, r). r = Inr True) new) \<and>
     (\<forall>(c, r) \<in> set new. \<exists>w. r = fst (run_probe lib c w)) \<and>
     (\<forall>fs. fst (run_checks lib config st) = Inr fs \<longrightarrow>
        fs = results (snd (run_checks lib config st)))"
proof -
  obtain r st' where run: "run_checks lib config st = (r, st')"
    by (cases "run_checks lib config st")
  have "extends lib (insert Redis (Database ` set database_services)) st st'"
    using keeps_run_checks run by (rule keepsD)
  moreover have "\<forall>fs. r = Inr fs \<longrightarrow> fs = results st'"
    using run by (auto dest: run_checks_returns_results)
  ultimately show ?thesis
    using run by (auto simp: extends_def findings_of_def)
qed

text \<open>
  The end-to-end scenario: the server accepts \<open>postgres:postgres\<close> only, so the first
  candidate is probed and leaves nothing, the second is probed and leaves the one Finding.
\<close>

theorem finding_iff_probe_true_witness:
  "probe_log (snd (run_checks (stub_clients example_ok) example_config (init (0::nat)))) =
     [(DatabaseProbe ''postgresql'' (YStr ''db.local'') (YInt 5432) (YStr ''admin'') (YStr ''admin''),
       Inr False),
      (DatabaseProbe ''postgresql'' (YStr ''db.local'') (YInt 5432) (YStr ''postgres'')
         (YStr ''postgres''), Inr True)] \<and>
   results (snd (run_checks (stub_clients example_ok) example_config (init (0::nat)))) =
     [[(''service'', YStr ''POSTGRESQL''), (''host'', YStr ''db.local''), (''port'', YInt 5432),
       (''username'', YStr ''postgres''), (''password'', YStr ''postgres'')]]"
proof -
  let ?st' = "snd (run_checks (stub_clients example_ok) example_config (init (0::nat)))"
  have log: "probe_log ?st' =
     [(DatabaseProbe ''postgresql'' (YStr ''db.local'') (YInt 5432) (YStr ''admin'') (YStr ''admin''),
       Inr False),
      (DatabaseProbe ''postgresql'' (YStr ''db.local'') (YInt 5432) (YStr ''postgres'')
         (YStr ''postgres''), Inr True)]"
    by code_simp
  have up: "upper ''postgresql'' = ''POSTGRESQL''" by code_simp
  from finding_iff_probe_true [of "stub_clients example_ok" example_config "init 0"]
  obtain new where "probe_log ?st' = probe_log (init (0::nat)) @ new"
    and res: "results ?st' =
       results (init (0::nat)) @
       map (\<lambda>(c, r). finding_of c) (filter (\<lambda>(c, r). r = Inr True) new)"
    by blast
  with log have "new =
     [(DatabaseProbe ''postgresql'' (YStr ''db.local'') (YInt 5432) (YStr ''admin'') (YStr ''admin''),
       Inr False),
      (DatabaseProbe ''postgresql'' (YStr ''db.local'') (YInt 5432) (YStr ''postgres'')
         (YStr ''postgres''), Inr True)]"
    by (simp add: init_def)
  with res log up show ?thesis
    by (simp add: init_def database_finding_def)
qed





subsection \<open>What a probe returns\<close>






subsection \<open>The shape of a result\<close>

lemma extends_results:
  assumes "extends lib S st st'"
    and "\<And>f. f \<in> set (results st) \<Longrightarrow> P f"
    and "\<And>c. service_of c \<in> S \<Longrightarrow> P (finding_of c)"
  shows "\<forall>f \<in> set (results st'). P f"
proof -
  from assms(1) obtain new where new: "results st' = results st @ findings_of new"
    "\<forall>(c, r) \<in> set new. service_of c \<in> S"
    unfolding extends_def by fast
  from new(2) assms(3) have "\<forall>f \<in> set (findings_of new). P f"
    by (auto simp: findings_of_def)
  with new(1) assms(2) show ?thesis by auto
qed

lemma shape_of_finding:
  assumes "service_of c \<in> insert Redis (Database ` set database_services)"
  shows "(database_shaped (finding_of c) \<or> redis_shaped (finding_of c)) \<and>
         ((map_of (finding_of c) ''username'' \<noteq> None) = (\<not> redis_shaped (finding_of c)))"
proof (cases c)
  case (DatabaseProbe t h p u pw)
  with assms have "t \<in> set database_services" by auto
  then have "upper t \<in> set (map upper database_services)" by simp
  moreover have "''Redis'' \<notin> set (map upper database_services)"
    by (simp add: upper_database_services)
  ultimately show ?thesis
    using DatabaseProbe
    by (auto simp: database_shaped_def redis_shaped_def database_finding_def keys_def)
next
  case (RedisProbe h p pw)
  then show ?thesis
    by (simp add: database_shaped_def redis_shaped_def redis_finding_def keys_def)
qed

text \<open>
  C10.  Every result of a fresh checker's run, whether the run returns or raises, has one of two
  shapes: the keys service, host, port, username, password, with the upper-cased name of a
  database service as the service; or the keys service, host, port, password, with the service
  \<open>Redis\<close>.  The key username is there exactly when the result is not of the second shape.
\<close>

theorem finding_keys:
  "\<forall>f \<in> set (results (snd (run_checks lib config (init w)))).
     (database_shaped f \<or> redis_shaped f) \<and>
     ((map_of f ''username'' \<noteq> None) = (\<not> redis_shaped f))"
proof -
  obtain r st' where run: "run_checks lib config (init w) = (r, st')"
    by (cases "run_checks lib config (init w)")
  have "extends lib (insert Redis (Database ` set database_services)) (init w) st'"
    using keeps_run_checks run by (rule keepsD)
  then have "\<forall>f \<in> set (results st').
     (database_shaped f \<or> redis_shaped f) \<and>
     ((map_of f ''username'' \<noteq> None) = (\<not> redis_shaped f))"
  proof (rule extends_results)
    fix c :: probe_call
    assume "service_of c \<in> insert Redis (Database ` set database_services)"
    then show "(database_shaped (finding_of c) \<or> redis_shaped (finding_of c)) \<and>
         ((map_of (finding_of c) ''username'' \<noteq> None) = (\<not> redis_shaped (finding_of c)))"
      by (rule shape_of_finding)
  qed (simp add: init_def)
  with run show ?thesis by simp
qed

text \<open>One result of each shape.\<close>

theorem finding_keys_witness:
  "results (snd (run_checks (stub_clients example_ok) mixed_config (init (0::nat)))) =
     [[(''service'', YStr ''POSTGRESQL''), (''host'', YStr ''db.local''), (''port'', YInt 5432),
       (''username'', YStr ''postgres''), (''password'', YStr ''postgres'')],
      [(''service'', YStr ''Redis''), (''host'', YStr ''cache.local''), (''port'', YInt 6379),
       (''password'', YStr ''secret'')]] \<and>
   database_shaped [(''service'', YStr ''POSTGRESQL''), (''host'', YStr ''db.local''),
       (''port'', YInt 5432), (''username'', YStr ''postgres''), (''password'', YStr ''postgres'')] \<and>
   redis_shaped [(''service'', YStr ''Redis''), (''host'', YStr ''cache.local''),
       (''port'', YInt 6379), (''password'', YStr ''secret'')]"
proof -
  let ?rs = "results (snd (run_checks (stub_clients example_ok) mixed_config (init (0::nat))))"
  let ?d = "[(''service'', YStr ''POSTGRESQL''), (''host'', YStr ''db.local''),
       (''port'', YInt 5432), (''username'', YStr ''postgres''), (''password'', YStr ''postgres'')]"
  let ?c = "[(''service'', YStr ''Redis''), (''host'', YStr ''cache.local''),
       (''port'', YInt 6379), (''password'', YStr ''secret'')]"
  have rs: "?rs = [?d, ?c]" by code_simp
  from finding_keys [of "stub_clients example_ok" mixed_config 0]
  have "\<forall>f \<in> set [?d, ?c].
     (database_shaped f \<or> redis_shaped f) \<and>
     ((map_of f ''username'' \<noteq> None) = (\<not> redis_shaped f))"
    unfolding rs .
  then have "database_shaped ?d" "redis_shaped ?c" by auto
  with rs show ?thesis by simp
qed

subsection \<open>Service types the checker does not know\<close>

lemma for_each_cong:
  "(\<And>x. x \<in> set xs \<Longrightarrow> f x = g x) \<Longrightarrow> for_each f xs = for_each g xs"
proof (induction xs)
  case Nil
  show ?case by (rule ext) simp
next
  case (Cons x xs)
  then show ?case by (simp add: for_each_Cons_and_then)
qed

lemma map_of_other_key:
  "k \<noteq> k' \<Longrightarrow> map_of (kv1 @ (k', v) # kv2) k = map_of (kv1 @ kv2) k"
  by (simp add: map_of_append map_add_def split: option.splits)

text \<open>
  C4.  A service type that is neither one of \<open>database_services\<close> nor \<open>redis\<close> does not
  disturb a run.  An entry for it in the configuration, wherever it stands, is never read: the
  run is the run of the configuration without the entry, outcome, results, probe calls and
  all.  And \<open>check_database\<close> called for such a type returns at once, raising nothing and
  changing nothing.
\<close>

theorem unsupported_type_skipped:
  assumes "t \<notin> set database_services" and "t \<noteq> ''redis''"
  shows "run_checks lib (YDict (kv1 @ (YStr t, v) # kv2)) st = run_checks lib (YDict (kv1 @ kv2)) st \<and>
         check_database lib t d cred st = (Inr (), st)"
proof
  let ?c = "YDict (kv1 @ (YStr t, v) # kv2)" and ?c' = "YDict (kv1 @ kv2)"
  have same: "\<And>s. s \<noteq> t \<Longrightarrow> map_of (kv1 @ (YStr t, v) # kv2) (YStr s) = map_of (kv1 @ kv2) (YStr s)"
    by (rule map_of_other_key) simp
  have "\<And>s. s \<in> set database_services \<Longrightarrow>
      map_of (kv1 @ (YStr t, v) # kv2) (YStr s) = map_of (kv1 @ kv2) (YStr s)"
    using assms(1) by (intro same) auto
  then have "\<And>s. s \<in> set database_services \<Longrightarrow> check_service lib ?c s = check_service lib ?c' s"
    by (simp add: check_service_def del: map_of_append)
  then have "for_each (check_service lib ?c) database_services =
      for_each (check_service lib ?c') database_services"
    by (rule for_each_cong)
  moreover have "check_redis_service lib ?c = check_redis_service lib ?c'"
    using assms(2) by (simp add: check_redis_service_def same [of "''redis''"] del: map_of_append)
  ultimately show "run_checks lib ?c st = run_checks lib ?c' st"
    by (simp add: run_checks_def)
  from assms have "map_of (check_methods lib) t = None"
    by (auto simp: check_methods_def database_services_def)
  then show "check_database lib t d cred st = (Inr (), st)"
    by (simp add: check_database_def return_def)
qed

text \<open>
  The misspelt entry changes nothing: PostgreSQL is probed and its Finding is returned.
\<close>

theorem unsupported_type_skipped_witness:
  "''postgres'' \<notin> set database_services \<and>
   run_checks (stub_clients example_ok) typo_config (init (0::nat)) =
     run_checks (stub_clients example_ok) example_config (init 0) \<and>
   fst (run_checks (stub_clients example_ok) typo_config (init (0::nat))) =
     Inr [database_finding ''postgresql'' (YStr ''db.local'') (YInt 5432) (YStr ''postgres'')
            (YStr ''postgres'')]"
proof -
  have t: "''postgres'' \<notin> set database_services" "''postgres'' \<noteq> ''redis''"
    by (simp_all add: database_services_def)
  let ?v = "YDict [(YStr ''host'', YStr ''typo.local''), (YStr ''port'', YInt 5432),
                    (YStr ''default_credentials'', YList [credential ''postgres'' ''postgres''])]"
  have c: "typo_config = YDict ([] @ (YStr ''postgres'', ?v) #
     [(YStr ''postgresql'',
             YDict [(YStr ''host'', YStr ''db.local''), (YStr ''port'', YInt 5432),
                    (YStr ''default_credentials'',
                     YList [credential ''admin'' ''admin'', credential ''postgres'' ''postgres''])])])"
    by (simp add: typo_config_def)
  have "run_checks (stub_clients example_ok) typo_config (init (0::nat)) =
     run_checks (stub_clients example_ok) example_config (init 0)"
    unfolding c using unsupported_type_skipped [OF t, THEN conjunct1, of "stub_clients example_ok" "[]"]
    by (simp add: example_config_def)
  moreover have "fst (run_checks (stub_clients example_ok) example_config (init (0::nat))) =
     Inr [database_finding ''postgresql'' (YStr ''db.local'') (YInt 5432) (YStr ''postgres'')
            (YStr ''postgres'')]"
    by code_simp
  ultimately show ?thesis using t by simp
qed

subsection \<open>A malformed instance\<close>













subsection \<open>The exit status\<close>







subsection \<open>Running twice\<close>

lemma same_courseD:
  assumes "same_course earlier m" and "twin earlier st st2"
    and "m st = (r, st')" and "m st2 = (r2, st2')"
  shows "r2 = r \<and> twin earlier st' st2'"
proof -
  from assms(1,2) have "fst (m st2) = fst (m st) \<and> twin earlier (snd (m st)) (snd (m st2))"
    unfolding same_course_def by blast
  with assms(3,4) show ?thesis by simp
qed

lemma deterministicD:
  "deterministic lib \<Longrightarrow> fst (run_probe lib c w) = fst (run_probe lib c w')"
  unfolding deterministic_def by blast

lemma same_course_lift: "same_course earlier (lift r)"
  by (simp add: same_course_def lift_def)

lemma same_course_return: "same_course earlier (return x)"
  by (simp add: same_course_def return_def)

lemma same_course_and_then:
  assumes "same_course earlier m" and "\<And>x. same_course earlier (f x)"
  shows "same_course earlier (and_then m f)"
  unfolding same_course_def
proof (intro allI impI)
  fix st st2 :: "'a state"
  assume t: "twin earlier st st2"
  obtain r st' where m: "m st = (r, st')" by (cases "m st")
  obtain r2 st2' where m2: "m st2 = (r2, st2')" by (cases "m st2")
  from same_courseD [OF assms(1) t m m2] have r: "r2 = r" and t': "twin earlier st' st2'"
    by simp_all
  show "fst (and_then m f st2) = fst (and_then m f st) \<and>
        twin earlier (snd (and_then m f st)) (snd (and_then m f st2))"
  proof (cases r)
    case (Inl e)
    with m m2 r t' show ?thesis by (simp add: and_then_def)
  next
    case (Inr x)
    from assms(2) [of x] t' have "fst (f x st2') = fst (f x st') \<and>
        twin earlier (snd (f x st')) (snd (f x st2'))"
      by (simp add: same_course_def)
    with m m2 r Inr show ?thesis by (simp add: and_then_def)
  qed
qed

lemma same_course_for_each:
  assumes "\<And>x. same_course earlier (body x)"
  shows "same_course earlier (for_each body xs)"
proof (induction xs)
  case Nil
  show ?case by (simp add: same_course_def)
next
  case (Cons x xs)
  with assms show ?case by (simp add: for_each_Cons_and_then same_course_and_then)
qed

lemma same_course_probe:
  assumes "deterministic lib" and "probe = run_probe lib c"
  shows "same_course earlier (and_then (invoke c probe)
           (\<lambda>success. if success then append_result f else return ()))"
  unfolding same_course_def
proof (intro allI impI)
  fix st st2 :: "'a state"
  assume t: "twin earlier st st2"
  obtain r w' where p: "run_probe lib c (world st) = (r, w')"
    by (cases "run_probe lib c (world st)")
  obtain r2 w2' where p2: "run_probe lib c (world st2) = (r2, w2')"
    by (cases "run_probe lib c (world st2)")
  from deterministicD [OF assms(1), of c "world st2" "world st"] p p2 have "r2 = r"
    by simp
  with t p p2 assms(2) show "fst (and_then (invoke c probe)
           (\<lambda>success. if success then append_result f else return ()) st2) =
        fst (and_then (invoke c probe)
           (\<lambda>success. if success then append_result f else return ()) st) \<and>
        twin earlier
          (snd (and_then (invoke c probe)
             (\<lambda>success. if success then append_result f else return ()) st))
          (snd (and_then (invoke c probe)
             (\<lambda>success. if success then append_result f else return ()) st2))"
    by (cases r) (simp_all add: and_then_def invoke_def append_result_def return_def twin_def)
qed

lemma same_course_check_database:
  assumes "deterministic lib"
  shows "same_course earlier (check_database lib db_type config cred)"
proof (cases "map_of (check_methods lib) db_type")
  case None
  then show ?thesis by (simp add: check_database_def same_course_return)
next
  case (Some m)
  then show ?thesis
    unfolding check_database_def
    by (simp add: same_course_and_then same_course_lift same_course_probe [OF assms])
qed

lemma same_course_check_service:
  assumes "deterministic lib"
  shows "same_course earlier (check_service lib config t)"
  unfolding check_service_def
  by (simp add: same_course_and_then same_course_lift same_course_return same_course_for_each
      same_course_check_database [OF assms])

lemma same_course_check_redis_service:
  assumes "deterministic lib"
  shows "same_course earlier (check_redis_service lib config)"
proof -
  have "\<And>rc pw. same_course earlier (check_redis_password lib rc pw)"
    unfolding check_redis_password_def
    by (simp add: same_course_and_then same_course_lift same_course_probe [OF assms])
  then show ?thesis
    unfolding check_redis_service_def
    by (simp add: same_course_and_then same_course_lift same_course_return same_course_for_each)
qed

lemma same_course_sweep:
  assumes "deterministic lib"
  shows "same_course earlier
     (and_then (for_each (check_service lib config) database_services)
        (\<lambda>_. check_redis_service lib config))"
  by (intro same_course_and_then same_course_for_each same_course_check_service
      same_course_check_redis_service assms)

lemma run_checks_sweep:
  "run_checks lib config st =
     (case and_then (for_each (check_service lib config) database_services)
             (\<lambda>_. check_redis_service lib config) st of
        (Inl e, st') \<Rightarrow> (Inl e, st')
      | (Inr u, st') \<Rightarrow> (Inr (results st'), st'))"
  by (simp add: run_checks_def and_then_def split: prod.splits sum.splits)

lemma twin_run_checks:
  assumes "deterministic lib" and "twin earlier st st2"
  shows "fst (run_checks lib config st2) = map_sum id ((@) earlier) (fst (run_checks lib config st))"
proof -
  let ?m = "and_then (for_each (check_service lib config) database_services)
             (\<lambda>_. check_redis_service lib config)"
  obtain r st' where m: "?m st = (r, st')" by (cases "?m st")
  obtain r2 st2' where m2: "?m st2 = (r2, st2')" by (cases "?m st2")
  from same_courseD [OF same_course_sweep [OF assms(1)] assms(2) m m2]
  have "r2 = r" "twin earlier st' st2'"
    by simp_all
  with m m2 show ?thesis
    by (cases r) (simp_all add: run_checks_sweep twin_def)
qed




text \<open>
  A second \<open>run_checks\<close> on the same checker object is another matter: \<open>self.results\<close> is
  emptied in \<open>__init__\<close> only, so the second call returns the Findings of the first run
  followed by the same Findings again.
\<close>

lemma second_run_on_same_checker:
  assumes "deterministic lib" and "run_checks lib config (init w) = (Inr rs, st1)"
  shows "fst (run_checks lib config st1) = Inr (rs @ rs)"
proof -
  from assms(2) have "rs = results st1" by (rule run_checks_returns_results)
  then have "twin rs (init w) st1" by (simp add: twin_def init_def)
  from twin_run_checks [OF assms(1) this, of config] assms(2) show ?thesis by simp
qed

end
